theory Spec2Isabelle
  imports Complex_Main "HOL-Library.Multiset"
begin

section \<open>Numbers\<close>

text \<open>
  The program is JavaScript; its numbers are IEEE doubles.  The value of a double is
  modelled by the real it denotes or by one of the three special values; signed zeros
  are not distinguished.  Scores, array lengths and indices are small integers, on
  which double arithmetic is exact.
\<close>

datatype jsnum = Fin real | PInf | NInf | NaN

text \<open>
  The arithmetic of the platform is a parameter of the model.  \<open>rnd\<close> takes the exact
  result of an operation on finite numbers, or a decimal literal, to the double that
  stands for it (rounding, with overflow to an infinity); the five functions of
  \<^verbatim>\<open>Math\<close> that the script calls are approximated by each implementation in its own
  way, and \<^verbatim>\<open>x ** 2\<close> is \<open>math_pow x 2\<close>.  Nothing is assumed of them here; the laws that
  a theorem needs are among its hypotheses.
\<close>

record fpu =
  rnd :: "real \<Rightarrow> jsnum"
  math_sin :: "jsnum \<Rightarrow> jsnum"
  math_cos :: "jsnum \<Rightarrow> jsnum"
  math_asin :: "jsnum \<Rightarrow> jsnum"
  math_sqrt :: "jsnum \<Rightarrow> jsnum"
  math_pow :: "jsnum \<Rightarrow> jsnum \<Rightarrow> jsnum"

fun js_neg :: "jsnum \<Rightarrow> jsnum" where
  "js_neg (Fin x) = Fin (- x)"
| "js_neg PInf = NInf"
| "js_neg NInf = PInf"
| "js_neg NaN = NaN"

text \<open>The operators \<^verbatim>\<open>+\<close>, \<^verbatim>\<open>-\<close>, \<^verbatim>\<open>*\<close> and \<^verbatim>\<open>/\<close> on numbers.\<close>

fun js_add :: "fpu \<Rightarrow> jsnum \<Rightarrow> jsnum \<Rightarrow> jsnum" where
  "js_add fp NaN _ = NaN"
| "js_add fp _ NaN = NaN"
| "js_add fp (Fin x) (Fin y) = rnd fp (x + y)"
| "js_add fp PInf NInf = NaN"
| "js_add fp NInf PInf = NaN"
| "js_add fp PInf _ = PInf"
| "js_add fp _ PInf = PInf"
| "js_add fp NInf _ = NInf"
| "js_add fp _ NInf = NInf"

definition js_sub :: "fpu \<Rightarrow> jsnum \<Rightarrow> jsnum \<Rightarrow> jsnum" where
  "js_sub fp x y = js_add fp x (js_neg y)"

fun js_mul :: "fpu \<Rightarrow> jsnum \<Rightarrow> jsnum \<Rightarrow> jsnum" where
  "js_mul fp NaN _ = NaN"
| "js_mul fp _ NaN = NaN"
| "js_mul fp (Fin x) (Fin y) = rnd fp (x * y)"
| "js_mul fp (Fin x) PInf = (if x = 0 then NaN else if 0 < x then PInf else NInf)"
| "js_mul fp (Fin x) NInf = (if x = 0 then NaN else if 0 < x then NInf else PInf)"
| "js_mul fp PInf (Fin y) = (if y = 0 then NaN else if 0 < y then PInf else NInf)"
| "js_mul fp NInf (Fin y) = (if y = 0 then NaN else if 0 < y then NInf else PInf)"
| "js_mul fp PInf PInf = PInf"
| "js_mul fp PInf NInf = NInf"
| "js_mul fp NInf PInf = NInf"
| "js_mul fp NInf NInf = PInf"

fun js_div :: "fpu \<Rightarrow> jsnum \<Rightarrow> jsnum \<Rightarrow> jsnum" where
  "js_div fp NaN _ = NaN"
| "js_div fp _ NaN = NaN"
| "js_div fp (Fin x) (Fin y) =
     (if y \<noteq> 0 then rnd fp (x / y)
      else if x = 0 then NaN
      else if 0 < x then PInf else NInf)"
| "js_div fp (Fin x) _ = Fin 0"
| "js_div fp PInf (Fin y) = (if 0 \<le> y then PInf else NInf)"
| "js_div fp NInf (Fin y) = (if 0 \<le> y then NInf else PInf)"
| "js_div fp _ _ = NaN"

text \<open>\<^verbatim>\<open>Math.PI\<close>, the double that stands for \<open>\<pi>\<close>.\<close>

definition js_PI :: "fpu \<Rightarrow> jsnum" where
  "js_PI fp = rnd fp pi"

text \<open>The comparisons \<^verbatim>\<open><\<close> and \<^verbatim>\<open>>\<close>: false as soon as one side is \<^verbatim>\<open>NaN\<close>.\<close>

fun js_lt :: "jsnum \<Rightarrow> jsnum \<Rightarrow> bool" where
  "js_lt NaN _ = False"
| "js_lt _ NaN = False"
| "js_lt (Fin x) (Fin y) = (x < y)"
| "js_lt _ NInf = False"
| "js_lt NInf _ = True"
| "js_lt PInf _ = False"
| "js_lt _ PInf = True"

definition js_gt :: "jsnum \<Rightarrow> jsnum \<Rightarrow> bool" where
  "js_gt x y = js_lt y x"

text \<open>\<^verbatim>\<open>Math.min\<close> and \<^verbatim>\<open>Math.max\<close> of two arguments.\<close>

definition js_min :: "jsnum \<Rightarrow> jsnum \<Rightarrow> jsnum" where
  "js_min x y = (if x = NaN \<or> y = NaN then NaN else if js_lt y x then y else x)"

definition js_max :: "jsnum \<Rightarrow> jsnum \<Rightarrow> jsnum" where
  "js_max x y = (if x = NaN \<or> y = NaN then NaN else if js_lt x y then y else x)"

section \<open>Coordinates and the haversine distance\<close>

text \<open>A Leaflet \<^verbatim>\<open>latlng\<close> of a click event: two finite doubles, in degrees.\<close>

record latlng =
  lat :: real
  lng :: real

text \<open>
  \<^verbatim>\<open>haversine(a, b)\<close>, lines 14 to 24, operation by operation, in the order in which
  JavaScript evaluates the expression.  The result is a number or \<^verbatim>\<open>NaN\<close>.
\<close>

definition haversine :: "fpu \<Rightarrow> latlng \<Rightarrow> latlng \<Rightarrow> jsnum" where
  "haversine fp a b =
     (let R = Fin 6371;
          dLat = js_div fp (js_mul fp (js_sub fp (Fin (lat b)) (Fin (lat a))) (js_PI fp)) (Fin 180);
          dLon = js_div fp (js_mul fp (js_sub fp (Fin (lng b)) (Fin (lng a))) (js_PI fp)) (Fin 180)
      in js_mul fp (js_mul fp (Fin 2) R)
           (math_asin fp (math_sqrt fp
             (js_add fp
               (math_pow fp (math_sin fp (js_div fp dLat (Fin 2))) (Fin 2))
               (js_mul fp
                 (js_mul fp
                   (math_cos fp (js_div fp (js_mul fp (Fin (lat a)) (js_PI fp)) (Fin 180)))
                   (math_cos fp (js_div fp (js_mul fp (Fin (lat b)) (js_PI fp)) (Fin 180))))
                 (math_pow fp (math_sin fp (js_div fp dLon (Fin 2))) (Fin 2)))))))"

text \<open>
  The distance loop of \<^verbatim>\<open>computeRoute\<close>, lines 107 to 109: \<^verbatim>\<open>dist\<close> starts at 0 and
  the index runs while \<^verbatim>\<open>i < points.length - 1\<close>.  The bound is an integer that is
  \<open>-1\<close> for the empty array, so the comparison is made in \<^typ>\<open>int\<close>.
\<close>

function distLoop :: "fpu \<Rightarrow> latlng list \<Rightarrow> nat \<Rightarrow> jsnum \<Rightarrow> jsnum" where
  "distLoop fp ps i dist_acc =
     (if int i < int (length ps) - 1
      then distLoop fp ps (i + 1) (js_add fp dist_acc (haversine fp (ps ! i) (ps ! (i + 1))))
      else dist_acc)"
  by pat_completeness auto
termination
  by (relation "measure (\<lambda>(fp, ps, i, dist_acc). length ps - i)") auto

declare distLoop.simps [simp del]

definition routeDistance :: "fpu \<Rightarrow> latlng list \<Rightarrow> jsnum" where
  "routeDistance fp ps = distLoop fp ps 0 (Fin 0)"

section \<open>The algorithm catalog\<close>

record algorithm =
  name :: string
  time :: string
  base :: int

text \<open>
  The twelve entries of \<^verbatim>\<open>algorithms\<close>, lines 65 to 78, in their order.  Three
  complexity labels hold the two code units \<open>0xC2\<close>, \<open>0xB3\<close> (or \<open>0xB2\<close>) after the
  letter V, as the source file has them.
\<close>

definition algorithms :: "algorithm list" where
  "algorithms =
    [\<lparr>name = ''Dijkstra'', time = ''O(E log V)'', base = 90\<rparr>,
     \<lparr>name = ''A*'', time = ''O(E log V)'', base = 88\<rparr>,
     \<lparr>name = ''BFS'', time = ''O(V+E)'', base = 82\<rparr>,
     \<lparr>name = ''DFS'', time = ''O(V+E)'', base = 65\<rparr>,
     \<lparr>name = ''Bellman-Ford'', time = ''O(VE)'', base = 70\<rparr>,
     \<lparr>name = ''Floyd-Warshall'', time = ''O(V'' @ [CHR 0xC2, CHR 0xB3] @ '')'', base = 60\<rparr>,
     \<lparr>name = ''Prim'', time = ''O(E log V)'', base = 78\<rparr>,
     \<lparr>name = ''Kruskal'', time = ''O(E log E)'', base = 76\<rparr>,
     \<lparr>name = ''Bidirectional Dijkstra'', time = ''O(E log V)'', base = 85\<rparr>,
     \<lparr>name = ''Johnson'', time = ''O(V'' @ [CHR 0xC2, CHR 0xB2] @ '' log V)'', base = 72\<rparr>,
     \<lparr>name = ''Ant Colony Optimization'', time = ''Iterative'', base = 68\<rparr>,
     \<lparr>name = ''Naive Greedy'', time = ''O(V'' @ [CHR 0xC2, CHR 0xB2] @ '')'', base = 55\<rparr>]"

section \<open>Graph analysis\<close>

record analysis =
  n :: nat
  spread :: jsnum
  density :: jsnum

text \<open>
  \<^verbatim>\<open>analyzeGraph\<close>, lines 81 to 98.  The four running extrema start at plus and minus
  infinity and are updated once per point, in array order; \<^verbatim>\<open>Math.min\<close> and \<^verbatim>\<open>Math.max\<close>
  return one of their arguments and do not round.  The two subtractions, the two
  additions and the division round, and \<^verbatim>\<open>0.0001\<close> is the double of that literal.
\<close>

definition extremaStep :: "jsnum \<times> jsnum \<times> jsnum \<times> jsnum \<Rightarrow> latlng \<Rightarrow> jsnum \<times> jsnum \<times> jsnum \<times> jsnum" where
  "extremaStep acc p =
     (case acc of (minLat, maxLat, minLng, maxLng) \<Rightarrow>
        (js_min minLat (Fin (lat p)),
         js_max maxLat (Fin (lat p)),
         js_min minLng (Fin (lng p)),
         js_max maxLng (Fin (lng p))))"

definition analyzeGraph :: "fpu \<Rightarrow> latlng list \<Rightarrow> analysis" where
  "analyzeGraph fp ps =
     (case foldl extremaStep (PInf, NInf, PInf, NInf) ps of
        (minLat, maxLat, minLng, maxLng) \<Rightarrow>
          (let spread = js_add fp (js_sub fp maxLat minLat) (js_sub fp maxLng minLng);
               density = js_div fp (Fin (real (length ps))) (js_add fp spread (rnd fp 0.0001))
           in \<lparr>n = length ps, spread = spread, density = density\<rparr>))"

section \<open>Scoring\<close>

record scored = algorithm +
  score :: int

text \<open>
  The callback of \<^verbatim>\<open>algorithms.map\<close>, lines 114 to 139: five independent \<^verbatim>\<open>if\<close>
  statements on a running score, then one clamp.
\<close>

definition adjustedScore :: "analysis \<Rightarrow> algorithm \<Rightarrow> int" where
  "adjustedScore an a =
     (let score = base a;
          score = (if n an \<le> 3 \<and> (name a = ''BFS'' \<or> name a = ''DFS'')
                   then score + 20 else score);
          score = (if n an \<ge> 4 \<and> n an \<le> 7 \<and> name a = ''Dijkstra''
                   then score + 25 else score);
          score = (if js_gt (spread an) (Fin 0.3) \<and> js_lt (density an) (Fin 10) \<and> name a = ''A*''
                   then score + 25 else score);
          score = (if n an > 7 \<and> name a = ''Bidirectional Dijkstra''
                   then score + 20 else score);
          score = (if n an < 5 \<and> name a = ''Floyd-Warshall''
                   then score - 30 else score)
      in max 0 (min 100 score))"

definition scoreAlgorithm :: "analysis \<Rightarrow> algorithm \<Rightarrow> scored" where
  "scoreAlgorithm an a =
     \<lparr>name = name a, time = time a, base = base a, score = adjustedScore an a\<rparr>"

text \<open>
  \<^verbatim>\<open>lastScored.sort((a,b) => b.score - a.score)\<close>, line 141.  \<^verbatim>\<open>Array.prototype.sort\<close>
  is stable (ECMAScript 2019), so its result for a consistent comparator is determined:
  it is the one computed by inserting each element, from the last to the first, in
  front of the first element that the comparator does not put before it.
\<close>

fun insertBy :: "('a \<Rightarrow> 'a \<Rightarrow> int) \<Rightarrow> 'a \<Rightarrow> 'a list \<Rightarrow> 'a list" where
  "insertBy cmp x [] = [x]"
| "insertBy cmp x (y # ys) =
     (if cmp x y \<le> 0 then x # y # ys else y # insertBy cmp x ys)"

definition sortBy :: "('a \<Rightarrow> 'a \<Rightarrow> int) \<Rightarrow> 'a list \<Rightarrow> 'a list" where
  "sortBy cmp xs = foldr (insertBy cmp) xs []"

definition byScoreDesc :: "scored \<Rightarrow> scored \<Rightarrow> int" where
  "byScoreDesc a b = score b - score a"

definition scoreAll :: "analysis \<Rightarrow> scored list" where
  "scoreAll an = map (scoreAlgorithm an) algorithms"

definition rankAlgorithms :: "analysis \<Rightarrow> scored list" where
  "rankAlgorithms an = sortBy byScoreDesc (scoreAll an)"

section \<open>Explanation\<close>

text \<open>
  The \<^verbatim>\<open>if\<close> / \<^verbatim>\<open>else if\<close> chain on \<^verbatim>\<open>best.name\<close> in \<^verbatim>\<open>computeRoute\<close>, lines 153 to
  184.  Each text is the concatenation of two literals, as in the source.
\<close>

definition explanationFor :: "string \<Rightarrow> string" where
  "explanationFor best_name =
     (if best_name = ''Dijkstra'' then
        ''Dijkstra was selected because the delivery network is moderately sized and weighted. '' @
        ''It guarantees the optimal shortest path while maintaining acceptable computational efficiency.''
      else if best_name = ''A*'' then
        ''A* was selected because the delivery points are spatially well-distributed, allowing '' @
        ''heuristic guidance to reduce unnecessary exploration and speed up pathfinding.''
      else if best_name = ''BFS'' then
        ''BFS was selected due to the very small size of the delivery network, where a simple '' @
        ''level-based traversal is sufficient and computationally efficient.''
      else if best_name = ''Bidirectional Dijkstra'' then
        ''Bidirectional Dijkstra was selected because the network is large, and searching from '' @
        ''both the source and destination significantly reduces the search space.''
      else if best_name = ''Bellman-Ford'' then
        ''Bellman-Ford was selected due to its robustness and ability to handle complex edge conditions, '' @
        ''despite higher computational cost.''
      else
        ''This algorithm was selected based on its balance between performance, scalability, '' @
        ''and suitability for the current network characteristics.'')"

section \<open>The session and its operations\<close>

text \<open>
  The global variables of the script, lines 1 to 5, together with the parts of the
  browser they act on: the layers shown on the Leaflet map, the texts of the page
  elements the script writes, the alerts raised and the timeouts scheduled.  A layer
  object is known by a number, given out by \<open>nextId\<close> when the object is created.
\<close>

datatype layer =
    Tile
  | Marker latlng
  | Drone latlng
  | Polyline latlng latlng

text \<open>
  What is assigned to the \<^verbatim>\<open>innerText\<close> of an element; the page is taken to have
  every element that the script looks up.  The conversion of numbers to
  decimal digits is not modelled: a length is kept as the number it is, and the
  distance text \<^verbatim>\<open>dist.toFixed(2) + " km"\<close> as the number it renders, which may be \<^verbatim>\<open>NaN\<close>.
\<close>

datatype inner_text = Str string | Count nat | Kilometres jsnum

text \<open>One card of the top-3 panel written by \<^verbatim>\<open>renderTopAlgorithms\<close>.\<close>

record card =
  position :: nat
  cardName :: string
  cardTime :: string
  confidence :: int
  recommended :: bool

record page =
  algoName :: inner_text
  bestAlgo :: inner_text
  distance :: inner_text
  pointsEl :: inner_text
  iterations :: inner_text
  complexity :: inner_text
  bestReason :: inner_text
  aiExplanation :: inner_text
  topAlgorithms :: "card list"

record session =
  points :: "latlng list"
  markers :: "nat list"
  polylines :: "nat list"
  droneMarker :: "nat option"
  lastScored :: "scored list"
  mapLayers :: "(nat \<times> layer) list"
  nextId :: nat
  page :: page
  alerts :: "string list"
  timers :: "nat list"

datatype error = TypeError

text \<open>
  The state after the script has loaded, lines 1 to 5: the map shows its tile layer only.
  The markup of the page is not part of the script, so the page is a parameter.
\<close>

definition initialSession :: "page \<Rightarrow> session" where
  "initialSession pg =
     \<lparr>points = [], markers = [], polylines = [], droneMarker = None, lastScored = [],
      mapLayers = [(0, Tile)], nextId = 1, page = pg, alerts = [], timers = []\<rparr>"

text \<open>\<^verbatim>\<open>L.marker(..).addTo(map)\<close>, \<^verbatim>\<open>map.removeLayer\<close> and \<^verbatim>\<open>setLatLng\<close>.\<close>

definition addLayer :: "layer \<Rightarrow> session \<Rightarrow> nat \<times> session" where
  "addLayer l s =
     (nextId s, s\<lparr>mapLayers := mapLayers s @ [(nextId s, l)], nextId := nextId s + 1\<rparr>)"

definition removeLayer :: "nat \<Rightarrow> session \<Rightarrow> session" where
  "removeLayer k s = s\<lparr>mapLayers := filter (\<lambda>e. fst e \<noteq> k) (mapLayers s)\<rparr>"

fun moveLayer :: "latlng \<Rightarrow> layer \<Rightarrow> layer" where
  "moveLayer p (Marker _) = Marker p"
| "moveLayer p (Drone _) = Drone p"
| "moveLayer p l = l"

definition setLatLng :: "nat \<Rightarrow> latlng \<Rightarrow> session \<Rightarrow> session" where
  "setLatLng k p s =
     s\<lparr>mapLayers := map (\<lambda>e. if fst e = k then (fst e, moveLayer p (snd e)) else e) (mapLayers s)\<rparr>"

text \<open>The click handler, lines 8 to 11.\<close>

definition click :: "latlng \<Rightarrow> session \<Rightarrow> session" where
  "click e s =
     (let s1 = s\<lparr>points := points s @ [e]\<rparr>
      in case addLayer (Marker e) s1 of
           (k, s2) \<Rightarrow> s2\<lparr>markers := markers s2 @ [k]\<rparr>)"

text \<open>\<^verbatim>\<open>drawPath\<close>, lines 27 to 38.\<close>

function drawLoop :: "nat \<Rightarrow> session \<Rightarrow> session" where
  "drawLoop i s =
     (if int i < int (length (points s)) - 1
      then (case addLayer (Polyline (points s ! i) (points s ! (i + 1))) s of
              (k, s1) \<Rightarrow> drawLoop (i + 1) (s1\<lparr>polylines := polylines s1 @ [k]\<rparr>))
      else s)"
  by pat_completeness auto
termination
  by (relation "measure (\<lambda>(i, s). length (points s) - i)") (auto simp: addLayer_def)

declare drawLoop.simps [simp del]

definition drawPath :: "session \<Rightarrow> session" where
  "drawPath s =
     (let s1 = foldl (\<lambda>t k. removeLayer k t) s (polylines s);
          s2 = s1\<lparr>polylines := []\<rparr>
      in drawLoop 0 s2)"

text \<open>
  \<^verbatim>\<open>animateDrone(path)\<close>, lines 41 to 62, up to the first call of \<^verbatim>\<open>move\<close>, which shows
  the drone at \<^verbatim>\<open>path[0]\<close> and schedules its next step (index 1) with \<^verbatim>\<open>setTimeout\<close>.
  The later steps run on the timer and are not modelled.  For an empty path
  \<^verbatim>\<open>path[0]\<close> is \<^verbatim>\<open>undefined\<close>, a position that Leaflet cannot place on the map.
\<close>

definition animateDrone :: "latlng list \<Rightarrow> session \<Rightarrow> error + session" where
  "animateDrone path s =
     (let s1 = (case droneMarker s of Some d \<Rightarrow> removeLayer d s | None \<Rightarrow> s)
      in case path of
           [] \<Rightarrow> Inl TypeError
         | p0 # _ \<Rightarrow>
             (case addLayer (Drone p0) s1 of
                (k, s2) \<Rightarrow>
                  (let s3 = s2\<lparr>droneMarker := Some k\<rparr>;
                       s4 = setLatLng k p0 s3
                   in Inr (s4\<lparr>timers := timers s4 @ [1]\<rparr>))))"

text \<open>\<^verbatim>\<open>renderTopAlgorithms\<close>, lines 194 to 208: one card for each of the first three entries.\<close>

definition renderTopAlgorithms :: "session \<Rightarrow> session" where
  "renderTopAlgorithms s =
     s\<lparr>page := (page s)\<lparr>topAlgorithms :=
         map (\<lambda>(i, a). \<lparr>position = i + 1, cardName = name a, cardTime = time a,
                         confidence = score a, recommended = (i = 0)\<rparr>)
             (enumerate 0 (take 3 (lastScored s)))\<rparr>\<rparr>"

text \<open>
  \<^verbatim>\<open>computeRoute\<close>, lines 101 to 191.  Reading \<^verbatim>\<open>best.name\<close> when \<^verbatim>\<open>lastScored\<close> is empty
  would raise a \<^verbatim>\<open>TypeError\<close>; the branch is kept.
\<close>

definition computeRoute :: "fpu \<Rightarrow> session \<Rightarrow> error + session" where
  "computeRoute fp s =
     (if length (points s) < 2
      then Inr (s\<lparr>alerts := alerts s @ [''Add at least 2 points'']\<rparr>)
      else
        (case animateDrone (points (drawPath s)) (drawPath s) of
           Inl e \<Rightarrow> Inl e
         | Inr s2 \<Rightarrow>
             (let total = routeDistance fp (points s2);
                  analysis = analyzeGraph fp (points s2);
                  s3 = s2\<lparr>lastScored := map (scoreAlgorithm analysis) algorithms\<rparr>;
                  s4 = s3\<lparr>lastScored := sortBy byScoreDesc (lastScored s3)\<rparr>
              in case lastScored s4 of
                   [] \<Rightarrow> Inl TypeError
                 | best # _ \<Rightarrow>
                     (let s5 = s4\<lparr>page := (page s4)
                            \<lparr>algoName := Str (name best),
                             bestAlgo := Str (name best),
                             distance := Kilometres total,
                             pointsEl := Count (length (points s4)),
                             iterations := Count (length (points s4)),
                             complexity := Str (time best)\<rparr>\<rparr>;
                          explanation = explanationFor (name best);
                          s6 = s5\<lparr>page := (page s5)
                            \<lparr>bestReason := Str ''Algorithm selected based on structural analysis of the delivery network.'',
                             aiExplanation := Str explanation\<rparr>\<rparr>
                      in Inr (renderTopAlgorithms s6)))))"

text \<open>\<^verbatim>\<open>resetMap\<close>, lines 211 to 217.\<close>

definition resetMap :: "session \<Rightarrow> session" where
  "resetMap s =
     (let s1 = s\<lparr>points := []\<rparr>;
          s2 = foldl (\<lambda>t k. removeLayer k t) s1 (markers s1);
          s3 = foldl (\<lambda>t k. removeLayer k t) s2 (polylines s2);
          s4 = (case droneMarker s3 of Some d \<Rightarrow> removeLayer d s3 | None \<Rightarrow> s3)
      in s4\<lparr>markers := [], polylines := []\<rparr>)"

section \<open>Reference definitions\<close>

text \<open>
  The adjustment table of the specification: a condition on the statistics, the names it
  applies to, and the amount added.  The specified score is the base score plus the sum
  of the amounts of all rules that match, clamped once.
\<close>

definition ruleTable :: "((analysis \<Rightarrow> bool) \<times> string list \<times> int) list" where
  "ruleTable =
    [(\<lambda>an. n an \<le> 3, [''BFS'', ''DFS''], 20),
     (\<lambda>an. 4 \<le> n an \<and> n an \<le> 7, [''Dijkstra''], 25),
     (\<lambda>an. js_gt (spread an) (Fin 0.3) \<and> js_lt (density an) (Fin 10), [''A*''], 25),
     (\<lambda>an. n an > 7, [''Bidirectional Dijkstra''], 20),
     (\<lambda>an. n an < 5, [''Floyd-Warshall''], - 30)]"

definition specScore :: "analysis \<Rightarrow> algorithm \<Rightarrow> int" where
  "specScore an a =
     max 0 (min 100 (base a +
       sum_list (map (\<lambda>r. snd (snd r))
         (filter (\<lambda>r. fst r an \<and> name a \<in> set (fst (snd r))) ruleTable))))"

text \<open>The score that the scored list holds for a name, and the place of a name in the catalog.\<close>

definition scoreByName :: "analysis \<Rightarrow> string \<Rightarrow> int option" where
  "scoreByName an nm = map_of (map (\<lambda>e. (name e, score e)) (scoreAll an)) nm"

definition catalogPosition :: "string \<Rightarrow> nat" where
  "catalogPosition nm = length (takeWhile (\<lambda>a. name a \<noteq> nm) algorithms)"

text \<open>
  The haversine formula for a sphere of radius \<open>R\<close>, on two latitudes and the differences
  of latitude and of longitude, all in radians, computed with the operations of the
  platform, and the conversion of degrees to radians.
\<close>

definition radians :: "fpu \<Rightarrow> jsnum \<Rightarrow> jsnum" where
  "radians fp deg = js_div fp (js_mul fp deg (js_PI fp)) (Fin 180)"

definition hav :: "fpu \<Rightarrow> jsnum \<Rightarrow> jsnum" where
  "hav fp theta = math_pow fp (math_sin fp (js_div fp theta (Fin 2))) (Fin 2)"

definition greatCircle :: "fpu \<Rightarrow> jsnum \<Rightarrow> jsnum \<Rightarrow> jsnum \<Rightarrow> jsnum \<Rightarrow> jsnum \<Rightarrow> jsnum" where
  "greatCircle fp R phi1 phi2 dphi dlam =
     js_mul fp (js_mul fp (Fin 2) R)
       (math_asin fp (math_sqrt fp
          (js_add fp (hav fp dphi)
             (js_mul fp (js_mul fp (math_cos fp phi1) (math_cos fp phi2)) (hav fp dlam)))))"



text \<open>
  The spread of a non-empty point sequence, latitude range plus longitude range, and the
  density, in the arithmetic of the platform.
\<close>

definition specSpread :: "fpu \<Rightarrow> latlng list \<Rightarrow> jsnum" where
  "specSpread fp ps =
     js_add fp (js_sub fp (Fin (Max (lat ` set ps))) (Fin (Min (lat ` set ps))))
               (js_sub fp (Fin (Max (lng ` set ps))) (Fin (Min (lng ` set ps))))"

definition specDensity :: "fpu \<Rightarrow> latlng list \<Rightarrow> jsnum" where
  "specDensity fp ps =
     js_div fp (Fin (real (length ps))) (js_add fp (specSpread fp ps) (rnd fp 0.0001))"

text \<open>A number that is not negative: zero, a positive number or plus infinity.\<close>

definition js_nonneg :: "jsnum \<Rightarrow> bool" where
  "js_nonneg x = (case x of Fin y \<Rightarrow> 0 \<le> y | PInf \<Rightarrow> True | _ \<Rightarrow> False)"

text \<open>
  Laws of IEEE 754 arithmetic with rounding to nearest: a rounded result is never
  \<^verbatim>\<open>NaN\<close>, rounding is monotone, leaves a double as it is, is exact on the integers up
  to \<open>2\<^sup>5\<^sup>3\<close>, commutes with negation, and the literal \<^verbatim>\<open>0.0001\<close> and \<open>\<pi>\<close> round to
  finite numbers, the first one positive.
\<close>

definition roundsCorrectly :: "fpu \<Rightarrow> bool" where
  "roundsCorrectly fp \<longleftrightarrow>
     (\<forall>x. rnd fp x \<noteq> NaN) \<and>
     (\<forall>x y. x \<le> y \<longrightarrow> \<not> js_lt (rnd fp y) (rnd fp x)) \<and>
     (\<forall>x y. rnd fp x = Fin y \<longrightarrow> rnd fp y = Fin y) \<and>
     (\<forall>k::int. \<bar>k\<bar> \<le> 2 ^ 53 \<longrightarrow> rnd fp (of_int k) = Fin (of_int k)) \<and>
     (\<forall>x. rnd fp (- x) = js_neg (rnd fp x)) \<and>
     (\<exists>e. 0 < e \<and> rnd fp 0.0001 = Fin e) \<and>
     (\<exists>p. rnd fp pi = Fin p)"

text \<open>
  Laws of the \<^verbatim>\<open>Math\<close> functions.  ECMAScript fixes the results at zero; that the sine is
  odd and the square even holds of the implementations in use, and a cosine of a number
  is a number between \<open>-1\<close> and \<open>1\<close>.
\<close>

definition mathConforms :: "fpu \<Rightarrow> bool" where
  "mathConforms fp \<longleftrightarrow>
     math_sin fp (Fin 0) = Fin 0 \<and>
     math_asin fp (Fin 0) = Fin 0 \<and>
     math_sqrt fp (Fin 0) = Fin 0 \<and>
     math_pow fp (Fin 0) (Fin 2) = Fin 0 \<and>
     (\<forall>x. math_sin fp (js_neg x) = js_neg (math_sin fp x)) \<and>
     (\<forall>x. math_pow fp (js_neg x) (Fin 2) = math_pow fp x (Fin 2)) \<and>
     (\<forall>r. \<exists>c. math_cos fp (Fin r) = Fin c \<and> \<bar>c\<bar> \<le> 1)"

text \<open>The comparison \<^verbatim>\<open>===\<close> on numbers: \<^verbatim>\<open>NaN\<close> is not equal to itself.\<close>

definition js_strict_eq :: "jsnum \<Rightarrow> jsnum \<Rightarrow> bool" where
  "js_strict_eq x y \<longleftrightarrow> x \<noteq> NaN \<and> x = y"

text \<open>
  An arithmetic that does not round, with the real functions for those of \<^verbatim>\<open>Math\<close>.  It
  gives the theorems concrete inputs; no theorem is restricted to it.
\<close>

definition exactArith :: fpu where
  "exactArith =
     \<lparr>rnd = Fin,
      math_sin = (\<lambda>x. case x of Fin r \<Rightarrow> Fin (sin r) | _ \<Rightarrow> NaN),
      math_cos = (\<lambda>x. case x of Fin r \<Rightarrow> Fin (cos r) | _ \<Rightarrow> NaN),
      math_asin = (\<lambda>x. case x of Fin r \<Rightarrow> (if - 1 \<le> r \<and> r \<le> 1 then Fin (arcsin r) else NaN)
                              | _ \<Rightarrow> NaN),
      math_sqrt = (\<lambda>x. case x of Fin r \<Rightarrow> (if 0 \<le> r then Fin (sqrt r) else NaN)
                              | PInf \<Rightarrow> PInf | _ \<Rightarrow> NaN),
      math_pow = (\<lambda>x y. case (x, y) of (Fin r, Fin k) \<Rightarrow> (if k = 2 then Fin (r * r) else NaN)
                              | _ \<Rightarrow> NaN)\<rparr>"

text \<open>The five names with a text of their own, and the text of the final \<^verbatim>\<open>else\<close> branch.\<close>

definition bespokeNames :: "string list" where
  "bespokeNames = [''Dijkstra'', ''A*'', ''BFS'', ''Bidirectional Dijkstra'', ''Bellman-Ford'']"

definition genericFallback :: string where
  "genericFallback =
     ''This algorithm was selected based on its balance between performance, scalability, and suitability for the current network characteristics.''"

section \<open>The session after a route computation\<close>

text \<open>
  What \<^verbatim>\<open>computeRoute\<close> leaves when there are at least two points, written in one piece:
  \<open>s\<close> is the session before the call and \<open>s2\<close> the session once the path is drawn and the
  drone placed.  Lemma \<open>computeRoute_enough_points\<close> relates it to \<^verbatim>\<open>computeRoute\<close>.
\<close>

definition routed :: "fpu \<Rightarrow> session \<Rightarrow> session \<Rightarrow> session" where
  "routed fp s s2 =
     (let ranking = rankAlgorithms (analyzeGraph fp (points s));
          best = hd ranking
      in renderTopAlgorithms
           (s2\<lparr>lastScored := ranking,
               page := (page s)
                 \<lparr>algoName := Str (name best),
                  bestAlgo := Str (name best),
                  distance := Kilometres (routeDistance fp (points s)),
                  pointsEl := Count (length (points s)),
                  iterations := Count (length (points s)),
                  complexity := Str (time best),
                  bestReason := Str ''Algorithm selected based on structural analysis of the delivery network.'',
                  aiExplanation := Str (explanationFor (name best))\<rparr>\<rparr>))"

text \<open>
  A page with empty texts, the session after two clicks on the map, and that session
  after a route computation; they serve as concrete inputs.  The second pair of
  sessions has its two points half the equator apart; \<open>staleSession\<close> is what a reset
  and one more click make of it.
\<close>

definition blankPage :: page where
  "blankPage =
     \<lparr>algoName = Str [], bestAlgo = Str [], distance = Str [], pointsEl = Str [],
      iterations = Str [], complexity = Str [], bestReason = Str [], aiExplanation = Str [],
      topAlgorithms = []\<rparr>"

definition exampleSession :: session where
  "exampleSession =
     click \<lparr>lat = 21.1, lng = 79.5\<rparr> (click \<lparr>lat = 20.6, lng = 78.9\<rparr> (initialSession blankPage))"

definition exampleRouted :: session where
  "exampleRouted = (case computeRoute exactArith exampleSession of Inr t \<Rightarrow> t | Inl e \<Rightarrow> exampleSession)"




section \<open>Laws of the arithmetic\<close>

text \<open>The arithmetic without rounding satisfies the laws, so they can be met.\<close>

lemma exactArith_rounds: "roundsCorrectly exactArith"
proof -
  have "\<exists>e::real. 0 < e \<and> Fin 0.0001 = Fin e"
    by (rule exI[of _ "0.0001"]) simp
  then show ?thesis
    by (simp add: roundsCorrectly_def exactArith_def)
qed

lemma exactArith_math: "mathConforms exactArith"
  by (auto simp: mathConforms_def exactArith_def split: jsnum.splits)

lemma rnd_zero: "roundsCorrectly fp \<Longrightarrow> rnd fp 0 = Fin 0"
proof -
  assume "roundsCorrectly fp"
  then have "\<forall>k::int. \<bar>k\<bar> \<le> 2 ^ 53 \<longrightarrow> rnd fp (of_int k) = Fin (of_int k)"
    by (simp add: roundsCorrectly_def)
  from this[rule_format, of 0] show ?thesis by simp
qed


lemma rnd_mono:
  assumes "roundsCorrectly fp" and "x \<le> y"
  shows "\<not> js_lt (rnd fp y) (rnd fp x)"
  using assms by (simp add: roundsCorrectly_def)

lemma rnd_not_NaN: "roundsCorrectly fp \<Longrightarrow> rnd fp x \<noteq> NaN"
  by (simp add: roundsCorrectly_def)


lemma rnd_nonneg:
  assumes "roundsCorrectly fp" and "0 \<le> x"
  shows "js_nonneg (rnd fp x)"
proof -
  have "\<not> js_lt (rnd fp x) (Fin 0)"
    using rnd_mono[OF assms] rnd_zero[OF assms(1)] by simp
  then show ?thesis
    using rnd_not_NaN[OF assms(1), of x] by (cases "rnd fp x") (simp_all add: js_nonneg_def)
qed

lemma js_add_nonneg:
  assumes "roundsCorrectly fp" and "js_nonneg u" and "js_nonneg v"
  shows "js_nonneg (js_add fp u v)"
  using assms(2,3) rnd_nonneg[OF assms(1)]
  by (cases u; cases v) (simp_all add: js_nonneg_def)

lemma js_add_positive:
  assumes "roundsCorrectly fp" and "js_nonneg u" and "rnd fp c = Fin e" and "0 < e"
  shows "js_lt (Fin 0) (js_add fp u (rnd fp c))"
proof (cases u)
  case (Fin y)
  with assms(2) have y: "0 \<le> y" by (simp add: js_nonneg_def)
  have idem: "rnd fp e = Fin e" using assms(1,3) by (auto simp: roundsCorrectly_def)
  have "\<not> js_lt (rnd fp (y + e)) (Fin e)"
    using rnd_mono[OF assms(1), of e "y + e"] y idem by simp
  then have "js_lt (Fin 0) (rnd fp (y + e))"
    using rnd_not_NaN[OF assms(1), of "y + e"] assms(4) by (cases "rnd fp (y + e)") simp_all
  with Fin assms(3) show ?thesis by simp
next
  case PInf
  with assms(3) show ?thesis by simp
qed (use assms(2) in \<open>simp_all add: js_nonneg_def\<close>)

lemma js_div_positive:
  assumes "roundsCorrectly fp" and "js_lt (Fin 0) v"
  shows "js_div fp (Fin x) v \<noteq> NaN"
  using assms(2) rnd_not_NaN[OF assms(1)] by (cases v) simp_all

text \<open>Negation passes through the operations when rounding is symmetric.\<close>

lemma js_sub_swap:
  assumes "\<forall>x. rnd fp (- x) = js_neg (rnd fp x)"
  shows "js_sub fp (Fin x) (Fin y) = js_neg (js_sub fp (Fin y) (Fin x))"
proof -
  have "rnd fp (x - y) = rnd fp (- (y - x))" by simp
  also have "\<dots> = js_neg (rnd fp (y - x))" using assms by blast
  finally show ?thesis by (simp add: js_sub_def)
qed

lemma js_mul_neg:
  assumes "\<forall>x. rnd fp (- x) = js_neg (rnd fp x)"
  shows "js_mul fp (js_neg u) v = js_neg (js_mul fp u v)"
proof (cases u; cases v)
  fix x y assume "u = Fin x" "v = Fin y"
  moreover have "rnd fp (- x * y) = rnd fp (- (x * y))" by simp
  ultimately show ?thesis using assms by simp
qed simp_all

lemma js_div_neg:
  assumes "\<forall>x. rnd fp (- x) = js_neg (rnd fp x)"
  shows "js_div fp (js_neg u) v = js_neg (js_div fp u v)"
proof (cases u; cases v)
  fix x y assume "u = Fin x" "v = Fin y"
  moreover have "rnd fp (- x / y) = rnd fp (- (x / y))" by simp
  ultimately show ?thesis using assms by simp
qed simp_all

lemma js_mul_commute: "js_mul fp u v = js_mul fp v u"
  by (cases u; cases v) (simp_all add: mult.commute)

section \<open>The haversine distance\<close>




lemma haversine_greatCircle:
  "haversine fp a b =
     greatCircle fp (Fin 6371) (radians fp (Fin (lat a))) (radians fp (Fin (lat b)))
       (radians fp (js_sub fp (Fin (lat b)) (Fin (lat a))))
       (radians fp (js_sub fp (Fin (lng b)) (Fin (lng a))))"
  by (simp add: haversine_def greatCircle_def radians_def hav_def Let_def)

lemma hav_neg:
  assumes "\<forall>x. rnd fp (- x) = js_neg (rnd fp x)"
    and "\<forall>x. math_sin fp (js_neg x) = js_neg (math_sin fp x)"
    and "\<forall>x. math_pow fp (js_neg x) (Fin 2) = math_pow fp x (Fin 2)"
  shows "hav fp (js_neg theta) = hav fp theta"
  using assms by (simp add: hav_def js_div_neg)

lemma radians_neg:
  assumes "\<forall>x. rnd fp (- x) = js_neg (rnd fp x)"
  shows "radians fp (js_neg x) = js_neg (radians fp x)"
  using assms by (simp add: radians_def js_div_neg js_mul_neg)


text \<open>Without rounding, two points half the equator apart are \<open>6371 \<pi>\<close> kilometres apart.\<close>

lemma haversine_half_equator:
  "haversine exactArith \<lparr>lat = 0, lng = 0\<rparr> \<lparr>lat = 0, lng = 180\<rparr> = Fin (6371 * pi)"
  by (simp add: haversine_def js_PI_def js_sub_def exactArith_def Let_def)

text \<open>
  Claim C10.  On a platform whose rounding commutes with negation, whose sine is odd
  and whose square is even, the haversine distance from \<open>a\<close> to \<open>b\<close> and the one from \<open>b\<close>
  to \<open>a\<close> are the same value, a number or \<^verbatim>\<open>NaN\<close>; the comparison \<^verbatim>\<open>===\<close> of the two
  holds exactly when that value is a number.
\<close>

theorem haversine_symmetric:
  assumes "\<forall>x. rnd fp (- x) = js_neg (rnd fp x)"
    and "\<forall>x. math_sin fp (js_neg x) = js_neg (math_sin fp x)"
    and "\<forall>x. math_pow fp (js_neg x) (Fin 2) = math_pow fp x (Fin 2)"
  shows "haversine fp a b = haversine fp b a \<and>
         (js_strict_eq (haversine fp a b) (haversine fp b a) \<longleftrightarrow> haversine fp a b \<noteq> NaN)"
proof -
  have lat: "radians fp (js_sub fp (Fin (lat a)) (Fin (lat b))) =
             js_neg (radians fp (js_sub fp (Fin (lat b)) (Fin (lat a))))"
    using js_sub_swap[OF assms(1), of "lat a" "lat b"] radians_neg[OF assms(1)] by simp
  have lng: "radians fp (js_sub fp (Fin (lng a)) (Fin (lng b))) =
             js_neg (radians fp (js_sub fp (Fin (lng b)) (Fin (lng a))))"
    using js_sub_swap[OF assms(1), of "lng a" "lng b"] radians_neg[OF assms(1)] by simp
  have cc: "js_mul fp (math_cos fp (radians fp (Fin (lat b)))) (math_cos fp (radians fp (Fin (lat a)))) =
            js_mul fp (math_cos fp (radians fp (Fin (lat a)))) (math_cos fp (radians fp (Fin (lat b))))"
    by (rule js_mul_commute)
  have "haversine fp b a = haversine fp a b"
    unfolding haversine_greatCircle greatCircle_def lat lng hav_neg[OF assms] cc ..
  then show ?thesis
    by (simp add: js_strict_eq_def)
qed

theorem haversine_symmetric_witness:
  "(\<forall>x. rnd exactArith (- x) = js_neg (rnd exactArith x)) \<and>
   (\<forall>x. math_sin exactArith (js_neg x) = js_neg (math_sin exactArith x)) \<and>
   (\<forall>x. math_pow exactArith (js_neg x) (Fin 2) = math_pow exactArith x (Fin 2)) \<and>
   haversine exactArith \<lparr>lat = 0, lng = 180\<rparr> \<lparr>lat = 0, lng = 0\<rparr> = Fin (6371 * pi) \<and>
   js_strict_eq (haversine exactArith \<lparr>lat = 0, lng = 0\<rparr> \<lparr>lat = 0, lng = 180\<rparr>)
     (haversine exactArith \<lparr>lat = 0, lng = 180\<rparr> \<lparr>lat = 0, lng = 0\<rparr>)"
proof -
  have h1: "\<forall>x. rnd exactArith (- x) = js_neg (rnd exactArith x)"
    by (simp add: exactArith_def)
  have h2: "\<forall>x. math_sin exactArith (js_neg x) = js_neg (math_sin exactArith x)"
    and h3: "\<forall>x. math_pow exactArith (js_neg x) (Fin 2) = math_pow exactArith x (Fin 2)"
    using exactArith_math unfolding mathConforms_def by blast+
  from haversine_symmetric[OF h1 h2 h3, of "\<lparr>lat = 0, lng = 0\<rparr>" "\<lparr>lat = 0, lng = 180\<rparr>"]
  have eq: "haversine exactArith \<lparr>lat = 0, lng = 0\<rparr> \<lparr>lat = 0, lng = 180\<rparr> =
            haversine exactArith \<lparr>lat = 0, lng = 180\<rparr> \<lparr>lat = 0, lng = 0\<rparr>"
    by blast
  then have rv: "haversine exactArith \<lparr>lat = 0, lng = 180\<rparr> \<lparr>lat = 0, lng = 0\<rparr> = Fin (6371 * pi)"
    by (simp only: haversine_half_equator)
  have "js_strict_eq (haversine exactArith \<lparr>lat = 0, lng = 0\<rparr> \<lparr>lat = 0, lng = 180\<rparr>)
     (haversine exactArith \<lparr>lat = 0, lng = 180\<rparr> \<lparr>lat = 0, lng = 0\<rparr>)"
    unfolding rv haversine_half_equator by (simp add: js_strict_eq_def)
  with h1 h2 h3 rv show ?thesis by blast
qed

section \<open>Scoring and ranking\<close>

lemma if_chain:
  fixes b :: int
  shows "(let s = b;
              s = (if c1 then s + 20 else s);
              s = (if c2 then s + 25 else s);
              s = (if c3 then s + 25 else s);
              s = (if c4 then s + 20 else s);
              s = (if c5 then s - 30 else s)
          in max 0 (min 100 s)) =
         max 0 (min 100 (b + ((if c1 then 20 else 0) + ((if c2 then 25 else 0) +
           ((if c3 then 25 else 0) + ((if c4 then 20 else 0) + ((if c5 then - 30 else 0) + 0)))))))"
  unfolding Let_def by (cases c1; cases c2; cases c3; cases c4; cases c5; simp)

lemma matching_adjustments:
  "sum_list (map (\<lambda>r. snd (snd r)) (filter (\<lambda>r. fst r an \<and> name a \<in> set (fst (snd r))) ruleTable)) =
   (if n an \<le> 3 \<and> (name a = ''BFS'' \<or> name a = ''DFS'') then 20 else 0) +
   ((if n an \<ge> 4 \<and> n an \<le> 7 \<and> name a = ''Dijkstra'' then 25 else 0) +
   ((if js_gt (spread an) (Fin 0.3) \<and> js_lt (density an) (Fin 10) \<and> name a = ''A*'' then 25 else 0) +
   ((if n an > 7 \<and> name a = ''Bidirectional Dijkstra'' then 20 else 0) +
   ((if n an < 5 \<and> name a = ''Floyd-Warshall'' then - 30 else 0) + 0))))"
  unfolding sum_list_map_filter' ruleTable_def
  by (simp only: list.map sum_list.Cons sum_list.Nil fst_conv snd_conv list.set insert_iff
        empty_iff simp_thms conj_assoc)

lemma adjustedScore_specScore: "adjustedScore an a = specScore an a"
  unfolding adjustedScore_def specScore_def matching_adjustments by (rule if_chain)

lemma adjustedScore_bounds: "0 \<le> adjustedScore an a \<and> adjustedScore an a \<le> 100"
  unfolding adjustedScore_def Let_def by simp

lemma length_algorithms: "length algorithms = 12"
  by (simp add: algorithms_def)

lemma names_scoreAll: "map name (scoreAll an) = map name algorithms"
  by (simp add: scoreAll_def scoreAlgorithm_def)

lemma set_insertBy: "set (insertBy cmp x ys) = insert x (set ys)"
  by (induction ys) auto

lemma set_sortBy: "set (sortBy cmp xs) = set xs"
  by (induction xs) (simp_all add: sortBy_def set_insertBy)

lemma sortBy_sort_key: "sortBy byScoreDesc xs = sort_key (\<lambda>e. - score e) xs"
proof -
  have ins: "insertBy byScoreDesc x ys = insort_key (\<lambda>e. - score e) x ys" for x ys
    by (induction ys) (auto simp: byScoreDesc_def)
  show ?thesis
    by (induction xs) (simp_all add: sortBy_def ins)
qed

lemma mset_rankAlgorithms: "mset (rankAlgorithms an) = mset (scoreAll an)"
  by (simp add: rankAlgorithms_def sortBy_sort_key)

lemma length_rankAlgorithms: "length (rankAlgorithms an) = 12"
  by (simp add: rankAlgorithms_def sortBy_sort_key scoreAll_def length_algorithms)

lemma rankAlgorithms_descending: "sorted_wrt (\<lambda>a b. score b \<le> score a) (rankAlgorithms an)"
proof -
  have "sorted (map (\<lambda>e. - score e) (rankAlgorithms an))"
    by (simp add: rankAlgorithms_def sortBy_sort_key)
  then show ?thesis
    by (simp add: sorted_map sorted_wrt_map)
qed

lemma rankAlgorithms_filter:
  "filter (\<lambda>e. score e = v) (rankAlgorithms an) = filter (\<lambda>e. score e = v) (scoreAll an)"
proof -
  have "filter (\<lambda>e. - score e = - v) (rankAlgorithms an) =
        filter (\<lambda>e. - score e = - v) (scoreAll an)"
    unfolding rankAlgorithms_def sortBy_sort_key by (rule sort_key_stable)
  then show ?thesis by simp
qed

text \<open>
  Inserting an element that stood before all others keeps a list ordered by decreasing
  score and, among equal scores, by original position.
\<close>

lemma insertBy_ranked:
  assumes "sorted_wrt (\<lambda>a b. score b < score a \<or> (score a = score b \<and> pos a < pos b)) ys"
    and "\<forall>y \<in> set ys. pos x < pos y"
  shows "sorted_wrt (\<lambda>a b. score b < score a \<or> (score a = score b \<and> pos a < (pos b :: nat)))
           (insertBy byScoreDesc x ys)"
  using assms
proof (induction ys)
  case Nil
  then show ?case by simp
next
  case (Cons y ys)
  show ?case
  proof (cases "byScoreDesc x y \<le> 0")
    case True
    then have le: "score y \<le> score x" by (simp add: byScoreDesc_def)
    have "score z \<le> score y" if "z \<in> set ys" for z
      using Cons.prems(1) that by auto
    with le have "score z < score x \<or> (score x = score z \<and> pos x < pos z)"
      if "z \<in> set (y # ys)" for z
      using Cons.prems(2) that by force
    with True Cons.prems(1) show ?thesis by simp
  next
    case False
    then have lt: "score x < score y" by (simp add: byScoreDesc_def)
    have "sorted_wrt (\<lambda>a b. score b < score a \<or> (score a = score b \<and> pos a < pos b))
            (insertBy byScoreDesc x ys)"
      using Cons by simp
    with False lt Cons.prems(1) show ?thesis
      by (auto simp: set_insertBy)
  qed
qed

lemma sortBy_ranked:
  assumes "sorted_wrt (\<lambda>a b. pos a < (pos b :: nat)) xs"
  shows "sorted_wrt (\<lambda>a b. score b < score a \<or> (score a = score b \<and> pos a < pos b))
           (sortBy byScoreDesc xs)"
  using assms
proof (induction xs)
  case Nil
  then show ?case by (simp add: sortBy_def)
next
  case (Cons x xs)
  have "sortBy byScoreDesc (x # xs) = insertBy byScoreDesc x (sortBy byScoreDesc xs)"
    by (simp add: sortBy_def)
  moreover have "\<forall>y \<in> set (sortBy byScoreDesc xs). pos x < pos y"
    using Cons.prems by (simp add: set_sortBy)
  moreover have "sorted_wrt (\<lambda>a b. score b < score a \<or> (score a = score b \<and> pos a < pos b))
           (sortBy byScoreDesc xs)"
    using Cons by simp
  ultimately show ?case by (simp add: insertBy_ranked)
qed

lemma catalog_positions: "map catalogPosition (map name algorithms) = [0..<12]"
  by (simp add: catalogPosition_def algorithms_def upt_rec)

lemma scoreAll_in_catalog_order:
  "sorted_wrt (\<lambda>a b. catalogPosition (name a) < catalogPosition (name b)) (scoreAll an)"
proof -
  have "map (\<lambda>e. catalogPosition (name e)) (scoreAll an) =
        map catalogPosition (map name (scoreAll an))"
    by simp
  also have "\<dots> = [0..<12]"
    unfolding names_scoreAll by (rule catalog_positions)
  finally have "sorted_wrt (<) (map (\<lambda>e. catalogPosition (name e)) (scoreAll an))"
    by (simp only: sorted_wrt_upt)
  then show ?thesis
    by (simp only: sorted_wrt_map)
qed

lemma rankAlgorithms_ranked:
  "sorted_wrt (\<lambda>a b. score b < score a \<or>
       (score a = score b \<and> catalogPosition (name a) < catalogPosition (name b)))
     (rankAlgorithms an)"
  unfolding rankAlgorithms_def
  by (rule sortBy_ranked[where pos = "\<lambda>e. catalogPosition (name e)"])
     (rule scoreAll_in_catalog_order)

lemma scoreByName_three:
  "scoreByName \<lparr>n = 3, spread = sp, density = de\<rparr> ''BFS'' = Some 100"
  "scoreByName \<lparr>n = 3, spread = sp, density = de\<rparr> ''DFS'' = Some 85"
  "scoreByName \<lparr>n = 3, spread = sp, density = de\<rparr> ''Floyd-Warshall'' = Some 30"
  by (simp_all add: scoreByName_def scoreAll_def scoreAlgorithm_def algorithms_def adjustedScore_def)

lemma scoreByName_five:
  "scoreByName \<lparr>n = 5, spread = sp, density = de\<rparr> ''Dijkstra'' = Some 100"
  "scoreByName \<lparr>n = 5, spread = sp, density = de\<rparr> ''Floyd-Warshall'' = Some 60"
  by (simp_all add: scoreByName_def scoreAll_def scoreAlgorithm_def algorithms_def adjustedScore_def)

text \<open>
  Claim C1.  For all statistics, the score that the code gives a descriptor is its base
  score plus the sum of the adjustments of all matching rules of the five-rule table,
  clamped once to the interval from 0 to 100, and the scored list is the catalog of 12
  descriptors with these scores.  With 3 points BFS scores 100, DFS 85 and Floyd-Warshall
  30, whatever the spread and density; with 5 points Dijkstra scores 100 and
  Floyd-Warshall 60.
\<close>

theorem scorer_follows_rule_table:
  "(\<forall>a. adjustedScore an a = specScore an a) \<and>
   scoreAll an =
     map (\<lambda>a. \<lparr>name = name a, time = time a, base = base a, score = specScore an a\<rparr>) algorithms \<and>
   length algorithms = 12 \<and>
   scoreByName \<lparr>n = 3, spread = sp, density = de\<rparr> ''BFS'' = Some 100 \<and>
   scoreByName \<lparr>n = 3, spread = sp, density = de\<rparr> ''DFS'' = Some 85 \<and>
   scoreByName \<lparr>n = 3, spread = sp, density = de\<rparr> ''Floyd-Warshall'' = Some 30 \<and>
   scoreByName \<lparr>n = 5, spread = sp, density = de\<rparr> ''Dijkstra'' = Some 100 \<and>
   scoreByName \<lparr>n = 5, spread = sp, density = de\<rparr> ''Floyd-Warshall'' = Some 60"
proof -
  have "scoreAll an =
     map (\<lambda>a. \<lparr>name = name a, time = time a, base = base a, score = specScore an a\<rparr>) algorithms"
    unfolding scoreAll_def scoreAlgorithm_def adjustedScore_specScore ..
  then show ?thesis
    using adjustedScore_specScore length_algorithms scoreByName_three scoreByName_five by blast
qed

theorem scorer_follows_rule_table_witness:
  "map score (scoreAll \<lparr>n = 3, spread = Fin 0.02, density = Fin 149\<rparr>) =
     [90, 88, 100, 85, 70, 30, 78, 76, 85, 72, 68, 55] \<and>
   map score (scoreAll \<lparr>n = 5, spread = Fin 4, density = Fin 1.2\<rparr>) =
     [100, 100, 82, 65, 70, 60, 78, 76, 85, 72, 68, 55] \<and>
   map score (scoreAll \<lparr>n = 9, spread = Fin 0.1, density = Fin 89\<rparr>) =
     [90, 88, 82, 65, 70, 60, 78, 76, 100, 72, 68, 55]"
proof -
  have a: "map score (scoreAll an) = map (specScore an) algorithms" for an
    using scorer_follows_rule_table[of an] by (simp add: comp_def)
  show ?thesis
    unfolding a
    by (simp add: specScore_def ruleTable_def algorithms_def js_gt_def)
qed

lemma ranking_example:
  "map (\<lambda>e. (name e, score e)) (rankAlgorithms \<lparr>n = 3, spread = Fin 0.02, density = Fin 149\<rparr>) =
  [(''BFS'', 100), (''Dijkstra'', 90), (''A*'', 88), (''DFS'', 85), (''Bidirectional Dijkstra'', 85),
   (''Prim'', 78), (''Kruskal'', 76), (''Johnson'', 72), (''Bellman-Ford'', 70),
   (''Ant Colony Optimization'', 68), (''Naive Greedy'', 55), (''Floyd-Warshall'', 30)]"
  by (simp add: rankAlgorithms_def sortBy_def scoreAll_def scoreAlgorithm_def algorithms_def
        adjustedScore_def byScoreDesc_def js_gt_def)

text \<open>
  Claim C2.  For all statistics, the ranking holds the 12 scored descriptors, in weakly
  decreasing order of score, and of two entries with the same score the one that comes
  first in the catalog comes first in the ranking: the entries with any given score
  appear in the ranking in the order they have in the scored catalog.
\<close>

theorem ranking_descending_and_stable:
  "length (rankAlgorithms an) = 12 \<and>
   mset (rankAlgorithms an) = mset (scoreAll an) \<and>
   sorted_wrt (\<lambda>a b. score b \<le> score a) (rankAlgorithms an) \<and>
   sorted_wrt (\<lambda>a b. score b < score a \<or>
       (score a = score b \<and> catalogPosition (name a) < catalogPosition (name b)))
     (rankAlgorithms an) \<and>
   (\<forall>v. filter (\<lambda>e. score e = v) (rankAlgorithms an) = filter (\<lambda>e. score e = v) (scoreAll an))"
  using length_rankAlgorithms mset_rankAlgorithms rankAlgorithms_descending
    rankAlgorithms_ranked rankAlgorithms_filter
  by blast

theorem ranking_descending_and_stable_witness:
  "map name (filter (\<lambda>e. score e = 85)
     (rankAlgorithms \<lparr>n = 3, spread = Fin 0.02, density = Fin 149\<rparr>)) =
     [''DFS'', ''Bidirectional Dijkstra''] \<and>
   catalogPosition ''DFS'' = 3 \<and> catalogPosition ''Bidirectional Dijkstra'' = 8"
proof -
  have "map name (filter (\<lambda>e. score e = 85)
      (scoreAll \<lparr>n = 3, spread = Fin 0.02, density = Fin 149\<rparr>)) =
      [''DFS'', ''Bidirectional Dijkstra'']"
    by (simp add: scoreAll_def scoreAlgorithm_def algorithms_def adjustedScore_def js_gt_def)
  moreover have "catalogPosition ''DFS'' = 3 \<and> catalogPosition ''Bidirectional Dijkstra'' = 8"
    by (simp add: catalogPosition_def algorithms_def)
  ultimately show ?thesis
    using ranking_descending_and_stable[of "\<lparr>n = 3, spread = Fin 0.02, density = Fin 149\<rparr>"]
    by simp
qed

section \<open>Graph statistics\<close>

lemma js_min_Fin: "js_min (Fin x) (Fin y) = Fin (min x y)"
  by (simp add: js_min_def min_def)

lemma js_max_Fin: "js_max (Fin x) (Fin y) = Fin (max x y)"
  by (simp add: js_max_def max_def)

lemma foldl_extrema_Fin:
  "foldl extremaStep (Fin a, Fin b, Fin c, Fin d) ps =
     (Fin (fold min (map lat ps) a), Fin (fold max (map lat ps) b),
      Fin (fold min (map lng ps) c), Fin (fold max (map lng ps) d))"
  by (induction ps arbitrary: a b c d)
     (simp_all add: extremaStep_def js_min_Fin js_max_Fin min.commute max.commute)

lemma extrema_nonempty:
  assumes "ps \<noteq> []"
  shows "foldl extremaStep (PInf, NInf, PInf, NInf) ps =
     (Fin (Min (lat ` set ps)), Fin (Max (lat ` set ps)),
      Fin (Min (lng ` set ps)), Fin (Max (lng ` set ps)))"
proof -
  from assms obtain p qs where ps: "ps = p # qs" by (cases ps) auto
  have first: "extremaStep (PInf, NInf, PInf, NInf) p =
      (Fin (lat p), Fin (lat p), Fin (lng p), Fin (lng p))"
    by (simp add: extremaStep_def js_min_def js_max_def)
  have m: "Min (f ` set (p # qs)) = fold min (map f qs) (f p)"
          "Max (f ` set (p # qs)) = fold max (map f qs) (f p)" for f :: "latlng \<Rightarrow> real"
    using Min.set_eq_fold[of "f p" "map f qs"] Max.set_eq_fold[of "f p" "map f qs"] by simp_all
  show ?thesis
    unfolding ps by (simp only: foldl.simps first foldl_extrema_Fin m)
qed

lemma analyzeGraph_nonempty:
  assumes "ps \<noteq> []"
  shows "analyzeGraph fp ps =
     \<lparr>n = length ps, spread = specSpread fp ps, density = specDensity fp ps\<rparr>"
  unfolding analyzeGraph_def extrema_nonempty[OF assms]
  by (simp add: specSpread_def specDensity_def Let_def)

lemma range_nonneg:
  fixes f :: "latlng \<Rightarrow> real"
  assumes "ps \<noteq> []"
  shows "0 \<le> Max (f ` set ps) - Min (f ` set ps)"
proof -
  have "finite (f ` set ps)" "f ` set ps \<noteq> {}" using assms by simp_all
  then have "Min (f ` set ps) \<le> Max (f ` set ps)" by (simp add: Min_le_iff)
  then show ?thesis by simp
qed

lemma specSpread_nonneg:
  assumes "ps \<noteq> []" and "roundsCorrectly fp"
  shows "js_nonneg (specSpread fp ps)"
proof -
  have "js_nonneg (js_sub fp (Fin (Max (f ` set ps))) (Fin (Min (f ` set ps))))"
    for f :: "latlng \<Rightarrow> real"
    using rnd_nonneg[OF assms(2) range_nonneg[OF assms(1), of f]] by (simp add: js_sub_def)
  then show ?thesis
    unfolding specSpread_def by (intro js_add_nonneg[OF assms(2)])
qed

lemma divisor_positive:
  assumes "ps \<noteq> []" and "roundsCorrectly fp"
  shows "js_lt (Fin 0) (js_add fp (specSpread fp ps) (rnd fp 0.0001))"
proof -
  obtain e where e: "0 < e" "rnd fp 0.0001 = Fin e"
    using assms(2) unfolding roundsCorrectly_def by blast
  show ?thesis
    by (rule js_add_positive[OF assms(2) specSpread_nonneg[OF assms] e(2) e(1)])
qed

lemma specSpread_single:
  assumes "set ps = {p}" and "roundsCorrectly fp"
  shows "specSpread fp ps = Fin 0"
  using assms(1) rnd_zero[OF assms(2)] by (simp add: specSpread_def js_sub_def)

lemma specDensity_single:
  assumes "set ps = {p}" and "roundsCorrectly fp"
  shows "specDensity fp ps = js_div fp (Fin (real (length ps))) (rnd fp 0.0001)"
proof -
  obtain e where e: "rnd fp 0.0001 = Fin e"
    using assms(2) unfolding roundsCorrectly_def by blast
  then have "rnd fp e = Fin e"
    using assms(2) unfolding roundsCorrectly_def by blast
  then show ?thesis
    unfolding specDensity_def specSpread_single[OF assms] e by simp
qed

text \<open>Without points the extrema keep their infinite start values; nothing fails.\<close>

lemma analyzeGraph_empty:
  assumes "roundsCorrectly fp"
  shows "analyzeGraph fp [] = \<lparr>n = 0, spread = NInf, density = Fin 0\<rparr>"
proof -
  obtain e where e: "rnd fp 0.0001 = Fin e"
    using assms unfolding roundsCorrectly_def by blast
  show ?thesis
    unfolding analyzeGraph_def Let_def e by (simp add: js_sub_def)
qed

lemma analyzeGraph_example:
  "analyzeGraph exactArith [\<lparr>lat = 20.6, lng = 78.9\<rparr>, \<lparr>lat = 21.1, lng = 79.5\<rparr>] =
     \<lparr>n = 2, spread = Fin 1.1, density = Fin (2 / 1.1001)\<rparr>"
  by (simp add: analyzeGraph_def extremaStep_def js_min_def js_max_def js_sub_def Let_def
        exactArith_def)

section \<open>The explanation selector\<close>

text \<open>
  Claim C6.  The explanation is a function of the name alone: each of the five names
  Dijkstra, A*, BFS, Bidirectional Dijkstra and Bellman-Ford gets its own text, these
  five texts and the generic sentence are pairwise different, and every other name, the
  seven remaining catalog names among them, gets the generic sentence.
\<close>

theorem explanation_selector_total:
  "(nm \<notin> set bespokeNames \<longrightarrow> explanationFor nm = genericFallback) \<and>
   map explanationFor [''DFS'', ''Floyd-Warshall'', ''Prim'', ''Kruskal'', ''Johnson'',
      ''Ant Colony Optimization'', ''Naive Greedy''] = replicate 7 genericFallback \<and>
   map explanationFor bespokeNames =
     [''Dijkstra was selected because the delivery network is moderately sized and weighted. It guarantees the optimal shortest path while maintaining acceptable computational efficiency.'',
      ''A* was selected because the delivery points are spatially well-distributed, allowing heuristic guidance to reduce unnecessary exploration and speed up pathfinding.'',
      ''BFS was selected due to the very small size of the delivery network, where a simple level-based traversal is sufficient and computationally efficient.'',
      ''Bidirectional Dijkstra was selected because the network is large, and searching from both the source and destination significantly reduces the search space.'',
      ''Bellman-Ford was selected due to its robustness and ability to handle complex edge conditions, despite higher computational cost.''] \<and>
   distinct (genericFallback # map explanationFor bespokeNames)"
proof -
  have "nm \<notin> set bespokeNames \<longrightarrow> explanationFor nm = genericFallback"
    by (simp add: bespokeNames_def explanationFor_def genericFallback_def)
  moreover have "map explanationFor [''DFS'', ''Floyd-Warshall'', ''Prim'', ''Kruskal'', ''Johnson'',
      ''Ant Colony Optimization'', ''Naive Greedy''] = replicate 7 genericFallback"
    by (simp add: explanationFor_def genericFallback_def numeral_eq_Suc)
  moreover have "map explanationFor bespokeNames =
     [''Dijkstra was selected because the delivery network is moderately sized and weighted. It guarantees the optimal shortest path while maintaining acceptable computational efficiency.'',
      ''A* was selected because the delivery points are spatially well-distributed, allowing heuristic guidance to reduce unnecessary exploration and speed up pathfinding.'',
      ''BFS was selected due to the very small size of the delivery network, where a simple level-based traversal is sufficient and computationally efficient.'',
      ''Bidirectional Dijkstra was selected because the network is large, and searching from both the source and destination significantly reduces the search space.'',
      ''Bellman-Ford was selected due to its robustness and ability to handle complex edge conditions, despite higher computational cost.'']"
    by (simp add: explanationFor_def bespokeNames_def)
  moreover have "distinct (genericFallback # map explanationFor bespokeNames)"
    by (simp add: explanationFor_def genericFallback_def bespokeNames_def)
  ultimately show ?thesis by blast
qed

theorem explanation_selector_total_witness:
  "''Prim'' \<notin> set bespokeNames \<and> explanationFor ''Prim'' = genericFallback \<and>
   ''dijkstra'' \<notin> set bespokeNames \<and> explanationFor ''dijkstra'' = genericFallback"
proof -
  have 1: "''Prim'' \<notin> set bespokeNames" "''dijkstra'' \<notin> set bespokeNames"
    by (simp_all add: bespokeNames_def)
  then show ?thesis
    using explanation_selector_total[of "''Prim''"] explanation_selector_total[of "''dijkstra''"]
    by blast
qed

section \<open>Route computation on a session\<close>

lemma removeAll_layers:
  "foldl (\<lambda>t k. removeLayer k t) s ks = s\<lparr>mapLayers := filter (\<lambda>e. fst e \<notin> set ks) (mapLayers s)\<rparr>"
proof (induction ks arbitrary: s)
  case Nil
  show ?case by simp
next
  case (Cons k ks)
  have "filter (\<lambda>e. fst e \<notin> set ks) (filter (\<lambda>e. fst e \<noteq> k) (mapLayers s)) =
        filter (\<lambda>e. fst e \<notin> set (k # ks)) (mapLayers s)"
    by (auto intro: filter_cong)
  moreover have "foldl (\<lambda>t k. removeLayer k t) s (k # ks) =
      foldl (\<lambda>t k. removeLayer k t) (removeLayer k s) ks"
    by simp
  ultimately show ?case
    unfolding Cons.IH by (simp add: removeLayer_def)
qed

lemma drawLoop_session:
  "points (drawLoop i s) = points s \<and> lastScored (drawLoop i s) = lastScored s \<and>
   page (drawLoop i s) = page s \<and> alerts (drawLoop i s) = alerts s \<and>
   droneMarker (drawLoop i s) = droneMarker s \<and> markers (drawLoop i s) = markers s \<and>
   timers (drawLoop i s) = timers s"
proof (induction i s rule: drawLoop.induct)
  case (1 i s)
  show ?case
  proof (cases "int i < int (length (points s)) - 1")
    case True
    let ?s1 = "snd (addLayer (Polyline (points s ! i) (points s ! (i + 1))) s)"
    let ?k = "fst (addLayer (Polyline (points s ! i) (points s ! (i + 1))) s)"
    have step: "drawLoop i s = drawLoop (i + 1) (?s1\<lparr>polylines := polylines ?s1 @ [?k]\<rparr>)"
      using True by (subst drawLoop.simps) (simp add: case_prod_beta)
    have ih: "points (drawLoop (i + 1) (?s1\<lparr>polylines := polylines ?s1 @ [?k]\<rparr>)) = points (?s1\<lparr>polylines := polylines ?s1 @ [?k]\<rparr>) \<and>
      lastScored (drawLoop (i + 1) (?s1\<lparr>polylines := polylines ?s1 @ [?k]\<rparr>)) = lastScored (?s1\<lparr>polylines := polylines ?s1 @ [?k]\<rparr>) \<and>
      page (drawLoop (i + 1) (?s1\<lparr>polylines := polylines ?s1 @ [?k]\<rparr>)) = page (?s1\<lparr>polylines := polylines ?s1 @ [?k]\<rparr>) \<and>
      alerts (drawLoop (i + 1) (?s1\<lparr>polylines := polylines ?s1 @ [?k]\<rparr>)) = alerts (?s1\<lparr>polylines := polylines ?s1 @ [?k]\<rparr>) \<and>
      droneMarker (drawLoop (i + 1) (?s1\<lparr>polylines := polylines ?s1 @ [?k]\<rparr>)) = droneMarker (?s1\<lparr>polylines := polylines ?s1 @ [?k]\<rparr>) \<and>
      markers (drawLoop (i + 1) (?s1\<lparr>polylines := polylines ?s1 @ [?k]\<rparr>)) = markers (?s1\<lparr>polylines := polylines ?s1 @ [?k]\<rparr>) \<and>
      timers (drawLoop (i + 1) (?s1\<lparr>polylines := polylines ?s1 @ [?k]\<rparr>)) = timers (?s1\<lparr>polylines := polylines ?s1 @ [?k]\<rparr>)"
      by (rule 1[OF True]) simp
    show ?thesis
      unfolding step using ih by (simp add: addLayer_def)
  next
    case False
    then have "drawLoop i s = s" by (subst drawLoop.simps) simp
    then show ?thesis by simp
  qed
qed

lemma drawPath_session:
  "points (drawPath s) = points s \<and> lastScored (drawPath s) = lastScored s \<and>
   page (drawPath s) = page s \<and> alerts (drawPath s) = alerts s \<and>
   droneMarker (drawPath s) = droneMarker s \<and> markers (drawPath s) = markers s \<and>
   timers (drawPath s) = timers s"
  by (simp add: drawPath_def Let_def drawLoop_session removeAll_layers)

lemma animateDrone_session:
  assumes "path \<noteq> []"
  shows "\<exists>t. animateDrone path s = Inr t \<and> points t = points s \<and> page t = page s \<and>
             alerts t = alerts s \<and> markers t = markers s \<and> polylines t = polylines s"
proof -
  from assms obtain p0 rest where "path = p0 # rest" by (cases path) auto
  then show ?thesis
    by (cases "droneMarker s")
       (simp_all add: animateDrone_def Let_def addLayer_def setLatLng_def removeLayer_def)
qed

lemma rankAlgorithms_nonempty: "rankAlgorithms an \<noteq> []"
  using length_rankAlgorithms[of an] by auto

lemma computeRoute_enough_points:
  assumes "2 \<le> length (points s)"
  shows "\<exists>s2. animateDrone (points s) (drawPath s) = Inr s2 \<and> points s2 = points s \<and>
           page s2 = page s \<and> alerts s2 = alerts s \<and> computeRoute fp s = Inr (routed fp s s2)"
proof -
  have ne: "points s \<noteq> []" using assms by auto
  obtain s2 where s2: "animateDrone (points s) (drawPath s) = Inr s2"
      "points s2 = points (drawPath s)" "page s2 = page (drawPath s)" "alerts s2 = alerts (drawPath s)"
    using animateDrone_session[OF ne, of "drawPath s"] by blast
  have fr: "points s2 = points s" "page s2 = page s" "alerts s2 = alerts s"
    using s2 drawPath_session[of s] by simp_all
  obtain best rest where r: "rankAlgorithms (analyzeGraph fp (points s)) = best # rest"
    using rankAlgorithms_nonempty[of "analyzeGraph fp (points s)"] by (cases "rankAlgorithms (analyzeGraph fp (points s))") auto
  have "computeRoute fp s = Inr (routed fp s s2)"
    using assms s2(1) fr r
    by (simp add: computeRoute_def drawPath_session Let_def routed_def
          rankAlgorithms_def[symmetric] scoreAll_def[symmetric])
  with s2(1) fr show ?thesis by blast
qed


lemma routed_outputs:
  "lastScored (routed fp s s2) = rankAlgorithms (analyzeGraph fp (points s))"
  "points (routed fp s s2) = points s2"
  "alerts (routed fp s s2) = alerts s2"
  "aiExplanation (page (routed fp s s2)) =
     Str (explanationFor (name (hd (rankAlgorithms (analyzeGraph fp (points s))))))"
  "distance (page (routed fp s s2)) = Kilometres (routeDistance fp (points s))"
  by (simp_all add: routed_def renderTopAlgorithms_def Let_def)

lemma computeRoute_outputs:
  assumes "2 \<le> length (points s)"
  shows "\<exists>t. computeRoute fp s = Inr t \<and> points t = points s \<and>
           lastScored t = rankAlgorithms (analyzeGraph fp (points s)) \<and>
           aiExplanation (page t) =
             Str (explanationFor (name (hd (rankAlgorithms (analyzeGraph fp (points s)))))) \<and>
           distance (page t) = Kilometres (routeDistance fp (points s))"
  using computeRoute_enough_points[OF assms] routed_outputs by metis

lemma descriptor_of_scored:
  "map (\<lambda>e. \<lparr>name = name e, time = time e, base = base e\<rparr>) (scoreAll an) = algorithms"
proof -
  have "\<lparr>name = name x, time = time x, base = base x\<rparr> = x" for x :: algorithm
    by (cases x) simp
  then have "map (\<lambda>e. \<lparr>name = name e, time = time e, base = base e\<rparr>)
      (map (scoreAlgorithm an) xs) = xs" for xs
    by (induction xs) (simp_all add: scoreAlgorithm_def)
  then show ?thesis
    unfolding scoreAll_def .
qed

lemma distinct_catalog_names: "distinct (map name algorithms)"
  by (simp add: algorithms_def)

lemma ranking_complete:
  "mset (map (\<lambda>e. \<lparr>name = name e, time = time e, base = base e\<rparr>) (rankAlgorithms an)) = mset algorithms"
  "distinct (map name (rankAlgorithms an))"
  "\<forall>e \<in> set (rankAlgorithms an). 0 \<le> score e \<and> score e \<le> 100"
proof -
  have "mset (map (\<lambda>e. \<lparr>name = name e, time = time e, base = base e\<rparr>) (rankAlgorithms an)) =
        mset (map (\<lambda>e. \<lparr>name = name e, time = time e, base = base e\<rparr>) (scoreAll an))"
    by (simp only: mset_map mset_rankAlgorithms)
  then show "mset (map (\<lambda>e. \<lparr>name = name e, time = time e, base = base e\<rparr>) (rankAlgorithms an)) = mset algorithms"
    by (simp only: descriptor_of_scored)
  have "mset (map name (rankAlgorithms an)) = mset (map name algorithms)"
    by (simp only: mset_map mset_rankAlgorithms flip: names_scoreAll[of an])
  then show "distinct (map name (rankAlgorithms an))"
    using distinct_catalog_names by (metis mset_eq_imp_distinct_iff)
  have "set (rankAlgorithms an) = set (scoreAll an)"
    by (simp add: rankAlgorithms_def set_sortBy)
  then show "\<forall>e \<in> set (rankAlgorithms an). 0 \<le> score e \<and> score e \<le> 100"
    using adjustedScore_bounds by (auto simp: scoreAll_def scoreAlgorithm_def)
qed

lemma exampleSession_points:
  "points exampleSession = [\<lparr>lat = 20.6, lng = 78.9\<rparr>, \<lparr>lat = 21.1, lng = 79.5\<rparr>]"
  by (simp add: exampleSession_def click_def addLayer_def initialSession_def Let_def)

text \<open>
  Claim C3.  A route computation on a session with at least two points succeeds and leaves
  a ranked list of exactly 12 entries, whose descriptors are those of the catalog, each
  once, and whose scores all lie between 0 and 100.
\<close>

theorem ranking_complete_and_bounded:
  assumes "2 \<le> length (points s)"
  shows "\<exists>t. computeRoute fp s = Inr t \<and>
           length (lastScored t) = 12 \<and>
           mset (map (\<lambda>e. \<lparr>name = name e, time = time e, base = base e\<rparr>) (lastScored t)) =
             mset algorithms \<and>
           distinct (map name (lastScored t)) \<and>
           (\<forall>e \<in> set (lastScored t). 0 \<le> score e \<and> score e \<le> 100)"
proof -
  obtain t where t: "computeRoute fp s = Inr t"
      "lastScored t = rankAlgorithms (analyzeGraph fp (points s))"
    using computeRoute_outputs[OF assms] by blast
  have "length (lastScored t) = 12"
    unfolding t(2) by (rule length_rankAlgorithms)
  moreover have "mset (map (\<lambda>e. \<lparr>name = name e, time = time e, base = base e\<rparr>) (lastScored t)) =
      mset algorithms"
    unfolding t(2) by (rule ranking_complete)
  moreover have "distinct (map name (lastScored t))"
    unfolding t(2) by (rule ranking_complete)
  moreover have "\<forall>e \<in> set (lastScored t). 0 \<le> score e \<and> score e \<le> 100"
    unfolding t(2) by (rule ranking_complete)
  ultimately show ?thesis
    using t(1) by blast
qed

theorem ranking_complete_and_bounded_witness:
  "2 \<le> length (points exampleSession) \<and>
   (\<exists>t. computeRoute exactArith exampleSession = Inr t \<and> length (lastScored t) = 12 \<and>
        (\<forall>e \<in> set (lastScored t). 0 \<le> score e \<and> score e \<le> 100))"
proof -
  have h: "2 \<le> length (points exampleSession)" by (simp add: exampleSession_points)
  show ?thesis
    using h ranking_complete_and_bounded[OF h] by blast
qed

text \<open>
  Claim C4.  With fewer than two points the route computation only raises the notice:
  the session it returns is the one it was given, ranked list, page texts, map layers
  and points included, with the message added to the alerts.
\<close>

theorem too_few_points_refused:
  assumes "length (points s) < 2"
  shows "computeRoute fp s = Inr (s\<lparr>alerts := alerts s @ [''Add at least 2 points'']\<rparr>)"
  using assms by (simp add: computeRoute_def)

theorem too_few_points_refused_witness:
  "length (points (initialSession blankPage)) < 2 \<and>
   computeRoute exactArith (initialSession blankPage) =
     Inr ((initialSession blankPage)\<lparr>alerts := [''Add at least 2 points'']\<rparr>) \<and>
   length (points (click \<lparr>lat = 20.6, lng = 78.9\<rparr> (initialSession blankPage))) < 2 \<and>
   lastScored (projr (computeRoute exactArith (click \<lparr>lat = 20.6, lng = 78.9\<rparr> (initialSession blankPage)))) = []"
proof -
  let ?s1 = "click \<lparr>lat = 20.6, lng = 78.9\<rparr> (initialSession blankPage)"
  have h0: "length (points (initialSession blankPage)) < 2" by (simp add: initialSession_def)
  have h1: "length (points ?s1) < 2"
    by (simp add: click_def addLayer_def initialSession_def Let_def)
  have "alerts (initialSession blankPage) = []" by (simp add: initialSession_def)
  with too_few_points_refused[OF h0]
  have a: "computeRoute exactArith (initialSession blankPage) =
     Inr ((initialSession blankPage)\<lparr>alerts := [''Add at least 2 points'']\<rparr>)" by simp
  have b: "lastScored (projr (computeRoute exactArith ?s1)) = []"
    unfolding too_few_points_refused[OF h1]
    by (simp add: click_def addLayer_def initialSession_def Let_def)
  from h0 h1 a b show ?thesis by blast
qed

text \<open>
  Claim C9.  The ranking, the explanation and the distance that a route computation
  produces depend on the points only: two sessions with the same sequence of at least
  two points yield the same three results, and so does a second computation run on the
  session that the first one left.
\<close>

theorem route_deterministic:
  assumes "2 \<le> length (points s1)" and "points s2 = points s1"
  shows "\<exists>t1 t2 t3. computeRoute fp s1 = Inr t1 \<and> computeRoute fp s2 = Inr t2 \<and>
           lastScored t1 = lastScored t2 \<and>
           aiExplanation (page t1) = aiExplanation (page t2) \<and>
           distance (page t1) = distance (page t2) \<and>
           computeRoute fp t1 = Inr t3 \<and>
           lastScored t3 = lastScored t1 \<and>
           aiExplanation (page t3) = aiExplanation (page t1) \<and>
           distance (page t3) = distance (page t1)"
proof -
  obtain t1 where t1: "computeRoute fp s1 = Inr t1" "points t1 = points s1"
      "lastScored t1 = rankAlgorithms (analyzeGraph fp (points s1))"
      "aiExplanation (page t1) =
         Str (explanationFor (name (hd (rankAlgorithms (analyzeGraph fp (points s1))))))"
      "distance (page t1) = Kilometres (routeDistance fp (points s1))"
    using computeRoute_outputs[OF assms(1)] by blast
  have "2 \<le> length (points s2)" using assms by simp
  from computeRoute_outputs[OF this]
  obtain t2 where t2: "computeRoute fp s2 = Inr t2"
      "lastScored t2 = rankAlgorithms (analyzeGraph fp (points s1))"
      "aiExplanation (page t2) =
         Str (explanationFor (name (hd (rankAlgorithms (analyzeGraph fp (points s1))))))"
      "distance (page t2) = Kilometres (routeDistance fp (points s1))"
    unfolding assms(2) by blast
  have "2 \<le> length (points t1)" using assms(1) t1(2) by simp
  from computeRoute_outputs[OF this]
  obtain t3 where t3: "computeRoute fp t1 = Inr t3"
      "lastScored t3 = rankAlgorithms (analyzeGraph fp (points s1))"
      "aiExplanation (page t3) =
         Str (explanationFor (name (hd (rankAlgorithms (analyzeGraph fp (points s1))))))"
      "distance (page t3) = Kilometres (routeDistance fp (points s1))"
    unfolding t1(2) by blast
  show ?thesis
    using t1 t2 t3 by simp
qed

theorem route_deterministic_witness:
  "2 \<le> length (points exampleSession) \<and>
   points (exampleSession\<lparr>alerts := [''Add at least 2 points'']\<rparr>) = points exampleSession \<and>
   (\<exists>t1 t2. computeRoute exactArith exampleSession = Inr t1 \<and>
      computeRoute exactArith (exampleSession\<lparr>alerts := [''Add at least 2 points'']\<rparr>) = Inr t2 \<and>
      lastScored t1 = lastScored t2 \<and>
      aiExplanation (page t1) = aiExplanation (page t2) \<and>
      distance (page t1) = distance (page t2))"
proof -
  have h1: "2 \<le> length (points exampleSession)" by (simp add: exampleSession_points)
  have h2: "points (exampleSession\<lparr>alerts := [''Add at least 2 points'']\<rparr>) = points exampleSession"
    by simp
  show ?thesis
    using h1 h2 route_deterministic[OF h1 h2] by blast
qed


text \<open>
  Claim C8.  For a non-empty point sequence the statistics are the number of points, the
  latitude range plus the longitude range, and the number of points divided by the
  spread plus 0.0001, each operation in the arithmetic of the platform.  With IEEE
  rounding the divisor is a positive number or plus infinity, never zero and never
  \<^verbatim>\<open>NaN\<close>, and the density is not \<^verbatim>\<open>NaN\<close>.  When all points are the same the spread is
  0, the density is the count divided by the double 0.0001, the ranking has its 12
  entries and a route computation on two or more such points succeeds with that ranking.
\<close>

theorem statistics_well_defined:
  assumes "ps \<noteq> []" and "roundsCorrectly fp"
  shows "analyzeGraph fp ps =
           \<lparr>n = length ps, spread = specSpread fp ps, density = specDensity fp ps\<rparr> \<and>
         js_lt (Fin 0) (js_add fp (specSpread fp ps) (rnd fp 0.0001)) \<and>
         specDensity fp ps \<noteq> NaN \<and>
         (set ps = {p} \<longrightarrow>
            specSpread fp ps = Fin 0 \<and>
            specDensity fp ps = js_div fp (Fin (real (length ps))) (rnd fp 0.0001) \<and>
            length (rankAlgorithms (analyzeGraph fp ps)) = 12 \<and>
            (\<forall>s. points s = ps \<and> 2 \<le> length ps \<longrightarrow>
               (\<exists>t. computeRoute fp s = Inr t \<and>
                    lastScored t = rankAlgorithms
                      \<lparr>n = length ps, spread = Fin 0,
                       density = js_div fp (Fin (real (length ps))) (rnd fp 0.0001)\<rparr>)))"
proof -
  have a: "analyzeGraph fp ps =
           \<lparr>n = length ps, spread = specSpread fp ps, density = specDensity fp ps\<rparr>"
    by (rule analyzeGraph_nonempty[OF assms(1)])
  have b: "js_lt (Fin 0) (js_add fp (specSpread fp ps) (rnd fp 0.0001))"
    by (rule divisor_positive[OF assms])
  have b': "specDensity fp ps \<noteq> NaN"
    unfolding specDensity_def by (rule js_div_positive[OF assms(2) b])
  have c: "specSpread fp ps = Fin 0"
      "specDensity fp ps = js_div fp (Fin (real (length ps))) (rnd fp 0.0001)"
    if "set ps = {p}"
    using specSpread_single[OF that assms(2)] specDensity_single[OF that assms(2)] by simp_all
  have d: "\<exists>t. computeRoute fp s = Inr t \<and>
                    lastScored t = rankAlgorithms
                      \<lparr>n = length ps, spread = Fin 0,
                       density = js_div fp (Fin (real (length ps))) (rnd fp 0.0001)\<rparr>"
    if "set ps = {p}" "points s = ps" "2 \<le> length ps" for s
  proof -
    have "2 \<le> length (points s)" using that by simp
    from computeRoute_outputs[OF this, of fp] show ?thesis
      unfolding that(2) a c[OF that(1)] by blast
  qed
  from a b b' c d length_rankAlgorithms show ?thesis by blast
qed

theorem statistics_well_defined_witness:
  "[\<lparr>lat = 20.5, lng = 78.75\<rparr>, \<lparr>lat = 20.5, lng = 78.75\<rparr>] \<noteq> [] \<and>
   roundsCorrectly exactArith \<and>
   set [\<lparr>lat = 20.5, lng = 78.75\<rparr>, \<lparr>lat = 20.5, lng = 78.75\<rparr>] = {\<lparr>lat = 20.5, lng = 78.75\<rparr>} \<and>
   analyzeGraph exactArith [\<lparr>lat = 20.5, lng = 78.75\<rparr>, \<lparr>lat = 20.5, lng = 78.75\<rparr>] =
     \<lparr>n = 2, spread = Fin 0, density = Fin 20000\<rparr> \<and>
   length (rankAlgorithms
     (analyzeGraph exactArith [\<lparr>lat = 20.5, lng = 78.75\<rparr>, \<lparr>lat = 20.5, lng = 78.75\<rparr>])) = 12"
proof -
  let ?p = "\<lparr>lat = 20.5, lng = 78.75\<rparr>"
  have h: "[?p, ?p] \<noteq> []" by simp
  have e: "set [?p, ?p] = {?p}" by simp
  note r = exactArith_rounds
  from statistics_well_defined[OF h r, of ?p] e
  have a0: "analyzeGraph exactArith [?p, ?p] =
          \<lparr>n = length [?p, ?p], spread = specSpread exactArith [?p, ?p],
           density = specDensity exactArith [?p, ?p]\<rparr>"
    and s0: "specSpread exactArith [?p, ?p] = Fin 0"
    and d0: "specDensity exactArith [?p, ?p] =
          js_div exactArith (Fin (real (length [?p, ?p]))) (rnd exactArith 0.0001)"
    and b: "length (rankAlgorithms (analyzeGraph exactArith [?p, ?p])) = 12"
    by blast+
  have a: "analyzeGraph exactArith [?p, ?p] = \<lparr>n = 2, spread = Fin 0, density = Fin 20000\<rparr>"
    unfolding a0 s0 d0 by (simp add: exactArith_def)
  from h e r a b show ?thesis by blast
qed

section \<open>Reset\<close>

lemma resetMap_session:
  "resetMap s =
     s\<lparr>points := [], markers := [], polylines := [],
       mapLayers := filter (\<lambda>e. fst e \<notin> set (markers s) \<and> fst e \<notin> set (polylines s) \<and>
                                 Some (fst e) \<noteq> droneMarker s) (mapLayers s)\<rparr>"
proof (cases "droneMarker s")
  case None
  then show ?thesis
    by (simp add: resetMap_def Let_def removeAll_layers)
next
  case (Some d)
  have "filter (\<lambda>e. fst e \<noteq> d) (filter (\<lambda>e. fst e \<notin> set (polylines s))
          (filter (\<lambda>e. fst e \<notin> set (markers s)) (mapLayers s))) =
        filter (\<lambda>e. fst e \<notin> set (markers s) \<and> fst e \<notin> set (polylines s) \<and> Some (fst e) \<noteq> Some d)
          (mapLayers s)"
    by (auto intro: filter_cong)
  moreover have "resetMap s =
      (removeLayer d (s\<lparr>points := [],
         mapLayers := filter (\<lambda>e. fst e \<notin> set (polylines s))
           (filter (\<lambda>e. fst e \<notin> set (markers s)) (mapLayers s))\<rparr>))\<lparr>markers := [], polylines := []\<rparr>"
    using Some by (simp add: resetMap_def Let_def removeAll_layers)
  ultimately show ?thesis
    using Some by (simp add: removeLayer_def)
qed

lemma exampleRouted_ranking:
  "computeRoute exactArith exampleSession = Inr exampleRouted"
  "lastScored exampleRouted = rankAlgorithms (analyzeGraph exactArith (points exampleSession))"
proof -
  have h: "2 \<le> length (points exampleSession)" by (simp add: exampleSession_points)
  from computeRoute_outputs[OF h] obtain t where t: "computeRoute exactArith exampleSession = Inr t"
    "lastScored t = rankAlgorithms (analyzeGraph exactArith (points exampleSession))" by blast
  then have "exampleRouted = t" by (simp add: exampleRouted_def)
  with t show "computeRoute exactArith exampleSession = Inr exampleRouted"
    "lastScored exampleRouted = rankAlgorithms (analyzeGraph exactArith (points exampleSession))" by simp_all
qed

text \<open>
  Claim C5, as amended.  After a reset the point sequence, the marker list and the
  polyline list are empty, and the layers of the markers, of the polylines and of the
  drone are off the map; the most recent ranked list and the texts of the page are not
  cleared: they are what they were before the reset.
\<close>

theorem reset_clears_map_only:
  "points (resetMap s) = [] \<and> markers (resetMap s) = [] \<and> polylines (resetMap s) = [] \<and>
   mapLayers (resetMap s) =
     filter (\<lambda>e. fst e \<notin> set (markers s) \<and> fst e \<notin> set (polylines s) \<and>
                  Some (fst e) \<noteq> droneMarker s) (mapLayers s) \<and>
   lastScored (resetMap s) = lastScored s \<and>
   page (resetMap s) = page s"
  by (simp add: resetMap_session)

text \<open>
  Claim C5 as stated fails: after two clicks, a route computation and a reset, the ranked
  list still holds the twelve entries of that computation, while the list of the
  initial session is empty.
\<close>

theorem reset_keeps_ranking_counterexample:
  "computeRoute exactArith exampleSession = Inr exampleRouted \<and>
   lastScored (initialSession blankPage) = [] \<and>
   map name (lastScored (resetMap exampleRouted)) =
     [''A*'', ''BFS'', ''Dijkstra'', ''DFS'', ''Bidirectional Dijkstra'', ''Prim'', ''Kruskal'',
      ''Johnson'', ''Bellman-Ford'', ''Ant Colony Optimization'', ''Naive Greedy'', ''Floyd-Warshall''] \<and>
   lastScored (resetMap exampleRouted) \<noteq> lastScored (initialSession blankPage)"
proof -
  have r: "lastScored (resetMap exampleRouted) =
      rankAlgorithms \<lparr>n = 2, spread = Fin 1.1, density = Fin (2 / 1.1001)\<rparr>"
  proof -
    have "lastScored (resetMap exampleRouted) = lastScored exampleRouted"
      by (simp add: resetMap_session)
    also have "\<dots> = rankAlgorithms (analyzeGraph exactArith (points exampleSession))"
      by (rule exampleRouted_ranking(2))
    also have "\<dots> = rankAlgorithms \<lparr>n = 2, spread = Fin 1.1, density = Fin (2 / 1.1001)\<rparr>"
      unfolding exampleSession_points analyzeGraph_example ..
    finally show ?thesis .
  qed
  have m: "map name (rankAlgorithms \<lparr>n = 2, spread = Fin 1.1, density = Fin (2 / 1.1001)\<rparr>) =
     [''A*'', ''BFS'', ''Dijkstra'', ''DFS'', ''Bidirectional Dijkstra'', ''Prim'', ''Kruskal'',
      ''Johnson'', ''Bellman-Ford'', ''Ant Colony Optimization'', ''Naive Greedy'', ''Floyd-Warshall'']"
    by (simp add: rankAlgorithms_def sortBy_def scoreAll_def scoreAlgorithm_def algorithms_def
        adjustedScore_def byScoreDesc_def js_gt_def)
  have i: "lastScored (initialSession blankPage) = []" by (simp add: initialSession_def)
  have "lastScored (resetMap exampleRouted) \<noteq> []"
    unfolding r using rankAlgorithms_nonempty by blast
  with i m r exampleRouted_ranking(1) show ?thesis by simp
qed

section \<open>The distance shown\<close>







end
